theory Spec2Isabelle
  imports Main "HOL-Library.Word"
begin

unbundle bit_operations_syntax

section \<open>mDNS discovery agent of arozos (package mdns)\<close>

text \<open>
  A shallow embedding of \<^verbatim>\<open>NewMDNS\<close>, \<^verbatim>\<open>Close\<close> and \<^verbatim>\<open>Scan\<close>.
  Go strings are byte sequences, here \<open>string\<close> (a list of 8-bit \<open>char\<close>s).
  The library routines the package calls (\<^verbatim>\<open>strings\<close>, \<^verbatim>\<open>net\<close>, \<^verbatim>\<open>zeroconf\<close>) are
  written out next to the code that calls them; what the operating system and the
  network answer is passed in as an environment.
\<close>

subsection \<open>Data model\<close>

type_synonym byte = "8 word"

text \<open>\<^verbatim>\<open>net.IP\<close> is a byte slice; an \<^verbatim>\<open>error\<close> is represented by its message.\<close>

type_synonym IP = "byte list"
type_synonym error = string

text \<open>\<^verbatim>\<open>type NetworkHost struct\<close>. The field \<^verbatim>\<open>Domain\<close> is written \<open>Domain'\<close>.\<close>

record NetworkHost =
  HostName :: string
  Port :: int
  IPv4 :: "IP list"
  Domain' :: string
  Model :: string
  UUID :: string
  Vendor :: string
  BuildVersion :: string
  MinorVersion :: string
  MacAddr :: "string list"
  Online :: bool

text \<open>The fields of \<^verbatim>\<open>zeroconf.ServiceEntry\<close> that \<^verbatim>\<open>Scan\<close> reads.\<close>

record ServiceEntry =
  entryHostName :: string
  entryPort :: int
  AddrIPv4 :: "IP list"
  Text :: "string list"

subsection \<open>Package strings\<close>

text \<open>
  \<^verbatim>\<open>strings.Split(s, sep)\<close> for a separator of one byte, the only way the package
  calls it (\<^verbatim>\<open>"="\<close> and \<^verbatim>\<open>","\<close>): the pieces between all occurrences of the
  separator; a string without separator is returned as its only piece, the empty
  string included.
\<close>

fun Split :: "string \<Rightarrow> char \<Rightarrow> string list" where
  "Split [] sep = [[]]"
| "Split (c # s) sep =
     (if c = sep then [] # Split s sep
      else (case Split s sep of
              [] \<Rightarrow> [[c]]
            | w # ws \<Rightarrow> (c # w) # ws))"

text \<open>\<^verbatim>\<open>strings.Join(elems, sep)\<close>.\<close>

fun Join :: "string list \<Rightarrow> string \<Rightarrow> string" where
  "Join [] sep = []"
| "Join [e] sep = e"
| "Join (e # es) sep = e @ sep @ Join es sep"

subsection \<open>The property codec\<close>

text \<open>
  Line 49 of \<^verbatim>\<open>NewMDNS\<close>: the TXT records handed to \<^verbatim>\<open>zeroconf.Register\<close>, from the
  configuration and the string of line 43
  (\<^verbatim>\<open>macAddressBoardcast = strings.Join(macAddress, ",")\<close>).
\<close>

definition txtRecords :: "NetworkHost \<Rightarrow> string list \<Rightarrow> string list" where
  "txtRecords config macAddress =
     (let macAddressBoardcast = Join macAddress '','' in
      [''version_build='' @ BuildVersion config,
       ''version_minor='' @ MinorVersion config,
       ''vendor='' @ Vendor config,
       ''model='' @ Model config,
       ''uuid='' @ UUID config,
       ''domain='' @ Domain' config,
       ''mac_addr='' @ macAddressBoardcast])"

text \<open>
  The encoder of the specification: the record's own \<open>MacAddr\<close> is what is joined
  (\<^verbatim>\<open>NewMDNS\<close> takes the list from \<^verbatim>\<open>getMacAddr\<close>).
\<close>

definition Encode :: "NetworkHost \<Rightarrow> string list" where
  "Encode r = txtRecords r (MacAddr r)"

text \<open>
  Lines 143-149 (and 180-186) of \<^verbatim>\<open>Scan\<close>: one step of the loop over \<^verbatim>\<open>TEXT\<close> and
  the loop itself; the Go map is a partial function, a later entry overwrites an
  earlier one with the same key.
\<close>

definition addProperty :: "(string \<rightharpoonup> string) \<Rightarrow> string \<Rightarrow> (string \<rightharpoonup> string)" where
  "addProperty properties v =
     (let kv = Split v CHR ''=''
      in if length kv = 2 then properties(kv ! 0 \<mapsto> kv ! 1) else properties)"

definition parseProperties :: "string list \<Rightarrow> (string \<rightharpoonup> string)" where
  "parseProperties TEXT = foldl addProperty Map.empty TEXT"

text \<open>Reading a Go map at a missing key gives the zero value, the empty string.\<close>

definition index :: "(string \<rightharpoonup> string) \<Rightarrow> string \<Rightarrow> string" where
  "index properties k = (case properties k of None \<Rightarrow> [] | Some v \<Rightarrow> v)"

text \<open>Lines 151-158 (and 188-195).\<close>

definition macAddrsOf :: "(string \<rightharpoonup> string) \<Rightarrow> string list" where
  "macAddrsOf properties =
     (case properties ''mac_addr'' of
        None \<Rightarrow> []
      | Some val \<Rightarrow>
          if val = [] then [] else Split (index properties ''mac_addr'') CHR '','')"

text \<open>
  Lines 142-173 (and, word for word, 179-210): the record appended for an accepted
  entry.
\<close>

definition hostOfEntry :: "ServiceEntry \<Rightarrow> NetworkHost" where
  "hostOfEntry entry =
     (let TEXT = Text entry;
          properties = parseProperties TEXT;
          macAddrs = macAddrsOf properties
      in \<lparr> HostName = entryHostName entry,
           Port = entryPort entry,
           IPv4 = AddrIPv4 entry,
           Domain' = index properties ''domain'',
           Model = index properties ''model'',
           UUID = index properties ''uuid'',
           Vendor = index properties ''vendor'',
           BuildVersion = index properties ''version_build'',
           MinorVersion = index properties ''version_minor'',
           MacAddr = macAddrs,
           Online = True \<rparr>)"

text \<open>
  The decoder of the specification: the property lines alone, the transport's fields
  left empty.
\<close>

definition Decode :: "string list \<Rightarrow> NetworkHost" where
  "Decode TEXT =
     hostOfEntry \<lparr> entryHostName = [], entryPort = 0, AddrIPv4 = [], Text = TEXT \<rparr>"

subsection \<open>Package strings, continued: what the interface selection calls\<close>

text \<open>\<^verbatim>\<open>strings.ReplaceAll(s, old, new)\<close> for \<^verbatim>\<open>old\<close> and \<^verbatim>\<open>new\<close> of one byte each.\<close>

definition ReplaceAll :: "string \<Rightarrow> char \<Rightarrow> char \<Rightarrow> string" where
  "ReplaceAll s old new = map (\<lambda>c. if c = old then new else c) s"

text \<open>
  \<^verbatim>\<open>strings.EqualFold(s, t)\<close> on bytes below \<^verbatim>\<open>utf8.RuneSelf\<close>: two bytes agree when
  they are equal or when the smaller one is an upper-case letter and the larger one
  is that letter plus \<^verbatim>\<open>'a' - 'A'\<close>. \<^verbatim>\<open>NewMDNS\<close> calls it with the text of a
  hardware address as first argument, which holds digits, the letters a to f and
  dashes only; no rune outside ASCII folds to one of these, so that comparing bytes
  is what the library's comparison of runes amounts to in that call.
\<close>

definition equalFoldByte :: "char \<Rightarrow> char \<Rightarrow> bool" where
  "equalFoldByte sr tr =
     (sr = tr \<or>
      (let lo = min (of_char sr :: nat) (of_char tr);
           hi = max (of_char sr :: nat) (of_char tr)
       in of_char CHR ''A'' \<le> lo \<and> lo \<le> of_char CHR ''Z'' \<and> hi = lo + 32))"

fun EqualFold :: "string \<Rightarrow> string \<Rightarrow> bool" where
  "EqualFold [] [] = True"
| "EqualFold (sr # s) (tr # t) = (equalFoldByte sr tr \<and> EqualFold s t)"
| "EqualFold _ _ = False"

text \<open>
  \<^verbatim>\<open>strings.TrimSpace(s)\<close> removes the leading and the trailing runes that
  \<^verbatim>\<open>unicode.IsSpace\<close> accepts. These are their UTF-8 encodings: tab, line feed,
  vertical tab, form feed, carriage return, space, U+0085, U+00A0, U+1680, U+2000 to
  U+200A, U+2028, U+2029, U+202F, U+205F, U+3000. A rune is decoded at the front of
  the string on the left and at its end on the right; a byte sequence that is not one
  of these encodings is not a space.
\<close>

definition spaceRunes :: "string list" where
  "spaceRunes =
     [[CHR 0x09], [CHR 0x0A], [CHR 0x0B], [CHR 0x0C], [CHR 0x0D], [CHR 0x20],
      [CHR 0xC2, CHR 0x85], [CHR 0xC2, CHR 0xA0],
      [CHR 0xE1, CHR 0x9A, CHR 0x80],
      [CHR 0xE2, CHR 0x80, CHR 0x80], [CHR 0xE2, CHR 0x80, CHR 0x81],
      [CHR 0xE2, CHR 0x80, CHR 0x82], [CHR 0xE2, CHR 0x80, CHR 0x83],
      [CHR 0xE2, CHR 0x80, CHR 0x84], [CHR 0xE2, CHR 0x80, CHR 0x85],
      [CHR 0xE2, CHR 0x80, CHR 0x86], [CHR 0xE2, CHR 0x80, CHR 0x87],
      [CHR 0xE2, CHR 0x80, CHR 0x88], [CHR 0xE2, CHR 0x80, CHR 0x89],
      [CHR 0xE2, CHR 0x80, CHR 0x8A],
      [CHR 0xE2, CHR 0x80, CHR 0xA8], [CHR 0xE2, CHR 0x80, CHR 0xA9],
      [CHR 0xE2, CHR 0x80, CHR 0xAF],
      [CHR 0xE2, CHR 0x81, CHR 0x9F],
      [CHR 0xE3, CHR 0x80, CHR 0x80]]"

text \<open>The width of the space rune at the front, and of the one at the end, if any.\<close>

definition leadingSpace :: "string \<Rightarrow> nat option" where
  "leadingSpace s =
     map_option length (find (\<lambda>r. take (length r) s = r) spaceRunes)"

definition trailingSpace :: "string \<Rightarrow> nat option" where
  "trailingSpace s =
     map_option length (find (\<lambda>r. take (length r) (rev s) = rev r) spaceRunes)"

function TrimLeftSpace :: "string \<Rightarrow> string" where
  "TrimLeftSpace s =
     (case leadingSpace s of
        None \<Rightarrow> s
      | Some n \<Rightarrow> TrimLeftSpace (drop n s))"
  by pat_completeness auto
termination
proof (relation "measure length")
  show "wf (measure length)" by simp
next
  fix s :: string and n
  assume "leadingSpace s = Some n"
  then obtain r where f: "find (\<lambda>r. take (length r) s = r) spaceRunes = Some r"
    and n: "n = length r"
    by (auto simp: leadingSpace_def)
  from f have r: "r \<in> set spaceRunes" "take (length r) s = r"
    by (auto simp: find_Some_iff)
  from r(1) have "r \<noteq> []" by (auto simp: spaceRunes_def)
  with r n have "0 < n" "s \<noteq> []" by auto
  then show "(drop n s, s) \<in> measure length" by simp
qed

function TrimRightSpace :: "string \<Rightarrow> string" where
  "TrimRightSpace s =
     (case trailingSpace s of
        None \<Rightarrow> s
      | Some n \<Rightarrow> TrimRightSpace (take (length s - n) s))"
  by pat_completeness auto
termination
proof (relation "measure length")
  show "wf (measure length)" by simp
next
  fix s :: string and n
  assume "trailingSpace s = Some n"
  then obtain r where f: "find (\<lambda>r. take (length r) (rev s) = rev r) spaceRunes = Some r"
    and n: "n = length r"
    by (auto simp: trailingSpace_def)
  from f have r: "r \<in> set spaceRunes" "take (length r) (rev s) = rev r"
    by (auto simp: find_Some_iff)
  from r(1) have "r \<noteq> []" by (auto simp: spaceRunes_def)
  with r n have "0 < n" "s \<noteq> []" by auto
  then show "(take (length s - n) s, s) \<in> measure length" by simp
qed

declare TrimLeftSpace.simps [simp del] TrimRightSpace.simps [simp del]

definition TrimSpace :: "string \<Rightarrow> string" where
  "TrimSpace s = TrimRightSpace (TrimLeftSpace s)"

subsection \<open>Package net\<close>

text \<open>
  \<^verbatim>\<open>HardwareAddr.String\<close>: nothing for an empty address, else two lower-case
  hexadecimal digits for each byte, with a colon between bytes.
\<close>

definition hexDigit :: string where
  "hexDigit = ''0123456789abcdef''"

definition hexByte :: "byte \<Rightarrow> string" where
  "hexByte b = [hexDigit ! unat (drop_bit 4 b), hexDigit ! unat (b AND 0xF)]"

definition HardwareAddr_String :: "byte list \<Rightarrow> string" where
  "HardwareAddr_String a = Join (map hexByte a) '':''"

text \<open>
  \<^verbatim>\<open>IP.To4\<close>: an address of four bytes is returned as it is, one of sixteen bytes
  that starts with ten zero bytes and two bytes \<^verbatim>\<open>0xff\<close> gives its last four bytes,
  every other one \<^verbatim>\<open>nil\<close>.
\<close>

definition To4 :: "IP \<Rightarrow> IP option" where
  "To4 ip =
     (if length ip = 4 then Some ip
      else if length ip = 16 \<and> (\<forall>b \<in> set (take 10 ip). b = 0)
              \<and> ip ! 10 = 0xff \<and> ip ! 11 = 0xff
           then Some (drop 12 ip)
      else None)"

text \<open>
  \<^verbatim>\<open>IP.String\<close> of an address whose \<^verbatim>\<open>To4\<close> is not \<^verbatim>\<open>nil\<close>, the only addresses line 89
  prints: the four bytes of \<^verbatim>\<open>To4\<close> in decimal, with dots.
\<close>

definition decimalDigit :: "nat \<Rightarrow> char" where
  "decimalDigit d = char_of (of_char CHR ''0'' + d)"

definition ubtoa :: "byte \<Rightarrow> string" where
  "ubtoa b =
     (let n = unat b
      in (if n < 10 then [decimalDigit n]
          else if n < 100 then [decimalDigit (n div 10), decimalDigit (n mod 10)]
          else [decimalDigit (n div 100), decimalDigit (n div 10 mod 10),
                decimalDigit (n mod 10)]))"

definition IPv4_String :: "IP \<Rightarrow> string" where
  "IPv4_String p4 = Join (map ubtoa p4) ''.''"

text \<open>
  A \<^verbatim>\<open>net.Addr\<close> as \<^verbatim>\<open>iface.Addrs()\<close> returns it: its dynamic type, the \<^verbatim>\<open>IP\<close> field
  of the two types the switch of lines 80-85 knows, and the text its \<^verbatim>\<open>String\<close>
  method returns.
\<close>

datatype Addr = IPNet IP string | IPAddr IP string | OtherAddr string

fun Addr_String :: "Addr \<Rightarrow> string" where
  "Addr_String (IPNet ip txt) = txt"
| "Addr_String (IPAddr ip txt) = txt"
| "Addr_String (OtherAddr txt) = txt"

text \<open>Lines 79-85: \<^verbatim>\<open>ip\<close> stays \<^verbatim>\<open>nil\<close>, the empty slice, for any other type.\<close>

fun addrIP :: "Addr \<Rightarrow> IP" where
  "addrIP (IPNet ip txt) = ip"
| "addrIP (IPAddr ip txt) = ip"
| "addrIP (OtherAddr txt) = []"

text \<open>
  The fields of \<^verbatim>\<open>net.Interface\<close> that \<^verbatim>\<open>NewMDNS\<close> reads, and what \<^verbatim>\<open>iface.Addrs()\<close>
  answers: an error, or the addresses bound to the interface.
\<close>

record Interface =
  Name :: string
  HardwareAddr :: "byte list"
  Addrs :: "error + Addr list"

subsection \<open>The agent\<close>

text \<open>
  What a call can end in: it returns, the process is ended by \<^verbatim>\<open>log.Fatalln\<close> (the
  line it prints is kept), or it panics on a \<^verbatim>\<open>nil\<close> pointer.
\<close>

datatype 'a outcome = Returned 'a | Fatal string | NilPanic

text \<open>
  \<^verbatim>\<open>zeroconf.Server\<close>, as far as teardown sees it: \<^verbatim>\<open>Shutdown\<close> of the library locks
  the server's mutex and reads its \<^verbatim>\<open>isShutdown\<close> flag, so that a server already
  shut down is left alone and a \<^verbatim>\<open>nil\<close> server is dereferenced.
\<close>

record Server =
  isShutdown :: bool

definition Shutdown :: "Server option \<Rightarrow> Server option outcome" where
  "Shutdown s =
     (case s of
        None \<Rightarrow> NilPanic
      | Some srv \<Rightarrow> Returned (Some (srv\<lparr>isShutdown := True\<rparr>)))"

text \<open>\<^verbatim>\<open>type MDNSHost struct\<close>; a pointer is \<open>None\<close> when it is \<^verbatim>\<open>nil\<close>.\<close>

record MDNSHost =
  MDNS :: "Server option"
  Host :: "NetworkHost option"
  IfaceOverride :: "Interface option"

text \<open>
  The resolver \<^verbatim>\<open>zeroconf.NewResolver\<close> returns, with the interfaces it was told to
  use (\<^verbatim>\<open>zeroconf.SelectIfaces\<close>), if any.
\<close>

datatype Resolver = Resolver "Interface list option"

text \<open>
  The environment of a call: what the calls that leave the package return.
  \<^item> \<open>getMacAddr\<close>: the result of the package's own \<^verbatim>\<open>getMacAddr()\<close>, whose source is
    not among the files read; only its result is used here.
  \<^item> \<open>Register\<close>: \<^verbatim>\<open>zeroconf.Register(instance, service, domain, port, text, nil)\<close>.
  \<^item> \<open>Interfaces\<close>: \<^verbatim>\<open>net.Interfaces()\<close>.
  \<^item> \<open>NewResolver\<close>: \<^verbatim>\<open>zeroconf.NewResolver(zcoption)\<close>.
  \<^item> \<open>Browse\<close>: \<^verbatim>\<open>resolver.Browse(ctx, service, domain, entries)\<close> with the timeout of
    \<^verbatim>\<open>ctx\<close> in seconds: an error, or the entries that the browse sends on the
    channel before the deadline, in their order.
  \<^item> \<open>handled\<close>: the scheduler's part. \<^verbatim>\<open>Scan\<close> reads \<^verbatim>\<open>discoveredHost\<close> at line
    228, after \<^verbatim>\<open>ctx.Done()\<close>, without waiting for the collecting goroutine of lines
    137-216; \<open>handled\<close> is the number of entries for which the body of the
    collecting loop has run to its end at that moment. An entry that was sent and is
    not yet appended is missing from the result. (A read that overlaps an append is
    not modelled.)
\<close>

record Env =
  getMacAddr :: "error + string list"
  Register :: "string \<Rightarrow> string \<Rightarrow> string \<Rightarrow> int \<Rightarrow> string list \<Rightarrow> error + Server"
  Interfaces :: "error + Interface list"
  NewResolver :: "Interface list option \<Rightarrow> error + Resolver"
  Browse :: "Resolver \<Rightarrow> int \<Rightarrow> string \<Rightarrow> string \<Rightarrow> error + ServiceEntry list"
  handled :: nat

text \<open>
  Lines 72-91: the address printed for the interface found. \<^verbatim>\<open>ifaceIp\<close> starts as
  the text of the first address, when there is one, and every address of the loop
  whose \<^verbatim>\<open>To4\<close> is not \<^verbatim>\<open>nil\<close> overwrites it.
\<close>

definition ifaceIpStep :: "string \<Rightarrow> Addr \<Rightarrow> string" where
  "ifaceIpStep ifaceIp addr =
     (let ip = addrIP addr
      in case To4 ip of
           None \<Rightarrow> ifaceIp
         | Some p4 \<Rightarrow> IPv4_String p4)"

definition ifaceIpOf :: "error + Addr list \<Rightarrow> string" where
  "ifaceIpOf r =
     (let addrs = (case r of Inl err \<Rightarrow> [] | Inr as \<Rightarrow> as);
          ifaceIp = (if isl r \<or> addrs = [] then [] else Addr_String (addrs ! 0))
      in foldl ifaceIpStep ifaceIp addrs)"

text \<open>
  Lines 65-95: the loop over the interfaces. It returns the interface found with its
  \<^verbatim>\<open>ifaceIp\<close>, if any, and \<^verbatim>\<open>MacOverride\<close>, which the loop body assigns to.
\<close>

fun ifaceLoop :: "Interface list \<Rightarrow> string \<Rightarrow> (Interface \<times> string) option \<times> string" where
  "ifaceLoop [] MacOverride = (None, MacOverride)"
| "ifaceLoop (iface # ifaces) MacOverride =
     (let thisIfaceMac = HardwareAddr_String (HardwareAddr iface);
          thisIfaceMac = ReplaceAll thisIfaceMac CHR '':'' CHR ''-'';
          MacOverride = ReplaceAll MacOverride CHR '':'' CHR ''-''
      in if EqualFold thisIfaceMac (TrimSpace MacOverride)
         then (Some (iface, ifaceIpOf (Addrs iface)), MacOverride)
         else ifaceLoop ifaces MacOverride)"

text \<open>Lines 56-102: the interface to override, and the lines logged.\<close>

definition selectIface :: "Env \<Rightarrow> string \<Rightarrow> Interface option \<times> string list" where
  "selectIface env MacOverride =
     (if MacOverride \<noteq> [] then
        (let (ifaces, log1) =
               (case Interfaces env of
                  Inl err \<Rightarrow>
                    ([], [''[mDNS] Unable to override iface MAC: '' @ err
                          @ ''. Resuming with default iface''])
                | Inr ifs \<Rightarrow> (ifs, []));
             (found, MacOverride) = ifaceLoop ifaces MacOverride
         in case found of
              None \<Rightarrow>
                (None,
                 log1 @ [''[mDNS] Unable to find the target iface with MAC address: ''
                         @ MacOverride @ ''. Resuming with default iface''])
            | Some (iface, ifaceIp) \<Rightarrow>
                (Some iface,
                 log1 @ [''[mDNS] Entering force MAC address mode, listening on: ''
                         @ MacOverride @ ''(IP address: '' @ ifaceIp @ '')'']))
      else (None, []))"

text \<open>
  \<^verbatim>\<open>NewMDNS\<close>: the agent, the error, and the lines logged. After line 39 \<^verbatim>\<open>err\<close> is
  \<^verbatim>\<open>nil\<close>, so that line 43 is always taken.
\<close>

definition NewMDNS ::
  "Env \<Rightarrow> NetworkHost \<Rightarrow> string \<Rightarrow> MDNSHost option \<times> error option \<times> string list" where
  "NewMDNS env config MacOverride =
     (case getMacAddr env of
        Inl err \<Rightarrow> (None, Some err, [])
      | Inr macAddress \<Rightarrow>
          (case Register env (HostName config) ''_http._tcp'' ''local.'' (Port config)
                  (txtRecords config macAddress) of
             Inl err \<Rightarrow>
               (Some \<lparr> MDNS = None, Host = None, IfaceOverride = None \<rparr>, Some err,
                [''[mDNS] Error when registering zeroconf broadcast message '' @ err])
           | Inr server \<Rightarrow>
               (let (overrideIface, logged) = selectIface env MacOverride
                in (Some \<lparr> MDNS = Some server, Host = Some config,
                           IfaceOverride = overrideIface \<rparr>,
                    None, logged))))"

text \<open>
  \<^verbatim>\<open>Close\<close>, on the receiver \<^verbatim>\<open>m\<close>: the agent afterwards, or the panic of
  \<^verbatim>\<open>m.MDNS.Shutdown()\<close>.
\<close>

definition Close :: "MDNSHost option \<Rightarrow> MDNSHost option outcome" where
  "Close m =
     (case m of
        None \<Rightarrow> Returned None
      | Some h \<Rightarrow>
          (case Shutdown (MDNS h) of
             Returned srv \<Rightarrow> Returned (Some (h\<lparr>MDNS := srv\<rparr>))
           | Fatal msg \<Rightarrow> Fatal msg
           | NilPanic \<Rightarrow> NilPanic))"

subsection \<open>Scan\<close>

text \<open>
  Modelled from the spec: \<^verbatim>\<open>stringInSlice\<close> is a helper of the package whose source is
  not among the files read. The specification has the filter accept a record when
  its raw property lines contain the given line as an exact match.
\<close>

fun stringInSlice :: "string \<Rightarrow> string list \<Rightarrow> bool" where
  "stringInSlice a [] = False"
| "stringInSlice a (b # list) = (if b = a then True else stringInSlice a list)"

text \<open>Lines 138-215: the body of the collecting loop, for one entry.\<close>

definition collect :: "string \<Rightarrow> NetworkHost list \<Rightarrow> ServiceEntry \<Rightarrow> NetworkHost list" where
  "collect domainFilter discoveredHost entry =
     (if domainFilter = [] then discoveredHost @ [hostOfEntry entry]
      else if stringInSlice (''domain='' @ domainFilter) (Text entry)
           then discoveredHost @ [hostOfEntry entry]
           else discoveredHost)"

text \<open>
  \<^verbatim>\<open>Scan\<close>, on the receiver \<^verbatim>\<open>m\<close>; lines 122-125 give the option for the resolver.
  \<^verbatim>\<open>log.Fatalln\<close> prints its operands with a space between them and ends the
  process. The result is what the collecting loop has appended for the entries it
  has handled when line 228 is reached.
\<close>

definition zcoptionOf :: "MDNSHost \<Rightarrow> Interface list option" where
  "zcoptionOf h = (case IfaceOverride h of None \<Rightarrow> None | Some iface \<Rightarrow> Some [iface])"

definition Scan :: "Env \<Rightarrow> MDNSHost option \<Rightarrow> int \<Rightarrow> string \<Rightarrow> NetworkHost list outcome" where
  "Scan env m timeout domainFilter =
     (case m of
        None \<Rightarrow> NilPanic
      | Some h \<Rightarrow>
          (let zcoption = zcoptionOf h
           in case NewResolver env zcoption of
                Inl err \<Rightarrow> Fatal (''Failed to initialize resolver: '' @ err)
              | Inr resolver \<Rightarrow>
                  (case Browse env resolver timeout ''_http._tcp'' ''local.'' of
                     Inl err \<Rightarrow> Fatal (''Failed to browse: '' @ err)
                   | Inr entries \<Rightarrow>
                       Returned (foldl (collect domainFilter) [] (take (handled env) entries)))))"

subsection \<open>Notions of the specification\<close>

text \<open>
  The key and the value of a property line: what stands before its first \<open>=\<close> and
  what stands after it.
\<close>

definition keyOf :: "string \<Rightarrow> string" where
  "keyOf v = takeWhile (\<lambda>c. c \<noteq> CHR ''='') v"

definition valueOf :: "string \<Rightarrow> string" where
  "valueOf v = tl (dropWhile (\<lambda>c. c \<noteq> CHR ''='') v)"

text \<open>The fixed key set of the codec.\<close>

definition knownKeys :: "string set" where
  "knownKeys =
     {''version_build'', ''version_minor'', ''vendor'', ''model'', ''uuid'', ''domain'',
      ''mac_addr''}"

text \<open>
  The parsing rule in the specification's words: every entry that holds a \<open>=\<close> is
  split at the first one into key and value, the others are discarded.
\<close>

definition addPropertyFirst :: "(string \<rightharpoonup> string) \<Rightarrow> string \<Rightarrow> (string \<rightharpoonup> string)" where
  "addPropertyFirst properties v =
     (if CHR ''='' \<in> set v then properties(keyOf v \<mapsto> valueOf v) else properties)"

definition parsePropertiesFirst :: "string list \<Rightarrow> (string \<rightharpoonup> string)" where
  "parsePropertiesFirst TEXT = foldl addPropertyFirst Map.empty TEXT"

text \<open>
  The IPv4 addresses bound to an interface, in the order of \<^verbatim>\<open>iface.Addrs()\<close>; the
  first of them is the address the specification names.
\<close>

definition ipv4sOf :: "Addr list \<Rightarrow> IP list" where
  "ipv4sOf addrs = List.map_filter (\<lambda>addr. To4 (addrIP addr)) addrs"

text \<open>
  The canonical form of a hardware address in text: dashes for colons, lower case
  for the letters A to Z.
\<close>

definition toLowerByte :: "char \<Rightarrow> char" where
  "toLowerByte c =
     (if of_char CHR ''A'' \<le> (of_char c :: nat) \<and> (of_char c :: nat) \<le> of_char CHR ''Z''
      then char_of (of_char c + 32 :: nat) else c)"

definition canonicalMac :: "string \<Rightarrow> string" where
  "canonicalMac s = map toLowerByte (ReplaceAll s CHR '':'' CHR ''-'')"

subsection \<open>Concrete inputs\<close>

text \<open>
  A host with one network interface that carries two IPv4 addresses and one IPv6
  address, and two peers on the network, one of the domain \<open>alpha\<close> and one of the
  domain \<open>beta\<close>.
\<close>

definition thisHost :: NetworkHost where
  "thisHost =
     \<lparr> HostName = ''arozos'', Port = 8080, IPv4 = [], Domain' = ''alpha'',
       Model = ''box'', UUID = ''0001'', Vendor = ''acme'',
       BuildVersion = ''2.0'', MinorVersion = ''21'',
       MacAddr = [''aa:bb:cc:dd:ee:ff'', ''02:00:00:00:00:01''], Online = False \<rparr>"

definition eth0Addrs :: "Addr list" where
  "eth0Addrs =
     [IPNet [0xfe, 0x80, 0, 0, 0, 0, 0, 0, 0, 0, 0, 0, 0, 0, 0, 1] ''fe80::1/64'',
      IPNet [10, 0, 0, 1] ''10.0.0.1/24'',
      IPNet [10, 0, 0, 2] ''10.0.0.2/24'']"

definition eth0 :: Interface where
  "eth0 =
     \<lparr> Name = ''eth0'', HardwareAddr = [0xaa, 0xbb, 0xcc, 0xdd, 0xee, 0xff],
       Addrs = Inr eth0Addrs \<rparr>"

definition lo0 :: Interface where
  "lo0 = \<lparr> Name = ''lo'', HardwareAddr = [], Addrs = Inr [IPNet [127, 0, 0, 1] ''127.0.0.1/8''] \<rparr>"

definition peerAlpha :: ServiceEntry where
  "peerAlpha =
     \<lparr> entryHostName = ''a.local.'', entryPort = 8080, AddrIPv4 = [[192, 168, 0, 2]],
       Text = [''version_build=2.0'', ''domain=alpha'', ''uuid=000a''] \<rparr>"

definition peerBeta :: ServiceEntry where
  "peerBeta =
     \<lparr> entryHostName = ''b.local.'', entryPort = 8081, AddrIPv4 = [[192, 168, 0, 3]],
       Text = [''version_build=2.0'', ''domain=beta'', ''uuid=000b''] \<rparr>"

definition lan :: Env where
  "lan =
     \<lparr> getMacAddr = Inr [''aa:bb:cc:dd:ee:ff''],
       Register = (\<lambda>instance service domain port text. Inr \<lparr> isShutdown = False \<rparr>),
       Interfaces = Inr [lo0, eth0],
       NewResolver = (\<lambda>zcoption. Inr (Resolver zcoption)),
       Browse = (\<lambda>resolver timeout service domain. Inr [peerAlpha, peerBeta]),
       handled = 2 \<rparr>"

text \<open>The same network when the scan returns before the second peer is appended.\<close>

definition lanEarly :: Env where
  "lanEarly = lan \<lparr> handled := 1 \<rparr>"

text \<open>The same host when a call of the library fails.\<close>

definition noHardware :: Env where
  "noHardware = lan \<lparr> getMacAddr := Inl ''route ip+net: no such network interface'' \<rparr>"

definition noRegister :: Env where
  "noRegister =
     lan \<lparr> Register := (\<lambda>instance service domain port text. Inl ''could not determine host'') \<rparr>"

definition noResolver :: Env where
  "noResolver = lan \<lparr> NewResolver := (\<lambda>zcoption. Inl ''no multicast listener'') \<rparr>"

definition noBrowse :: Env where
  "noBrowse =
     lan \<lparr> Browse := (\<lambda>resolver timeout service domain. Inl ''query failed'') \<rparr>"

text \<open>The agent that \<^verbatim>\<open>NewMDNS\<close> returns on \<open>lan\<close> without override.\<close>

definition agent :: MDNSHost where
  "agent = \<lparr> MDNS = Some \<lparr> isShutdown = False \<rparr>, Host = Some thisHost, IfaceOverride = None \<rparr>"

section \<open>The collecting loop of Scan\<close>

lemma hostOfEntry_Online: "Online (hostOfEntry entry)"
  by (simp add: hostOfEntry_def Let_def)

lemma stringInSlice_iff: "stringInSlice a list \<longleftrightarrow> a \<in> set list"
  by (induction list) auto

lemma collect_eq:
  "collect domainFilter discoveredHost entry =
     (if domainFilter = [] \<or> ''domain='' @ domainFilter \<in> set (Text entry)
      then discoveredHost @ [hostOfEntry entry] else discoveredHost)"
  by (simp add: collect_def stringInSlice_iff del: append.simps)

lemma foldl_collect:
  "foldl (collect domainFilter) acc entries =
     acc @ map hostOfEntry
             (filter (\<lambda>entry. domainFilter = [] \<or> ''domain='' @ domainFilter \<in> set (Text entry))
                entries)"
  by (induction entries arbitrary: acc) (simp_all add: collect_eq del: append.simps)

lemma Scan_Returned:
  assumes "Scan env m timeout domainFilter = Returned hosts"
  obtains h resolver entries where "m = Some h"
    and "Browse env resolver timeout ''_http._tcp'' ''local.'' = Inr entries"
    and "hosts = foldl (collect domainFilter) [] (take (handled env) entries)"
  using assms by (auto simp: Scan_def Let_def split: option.splits sum.splits)

text \<open>
  C10. Every record in the sequence that \<^verbatim>\<open>Scan\<close> returns has \<open>Online\<close> set, whatever
  the domain filter is: both branches of the collecting loop append a record built
  with \<^verbatim>\<open>Online: true\<close>.
\<close>

theorem Scan_Online:
  "Scan env m timeout domainFilter = Returned hosts \<Longrightarrow> \<forall>h \<in> set hosts. Online h"
  by (erule Scan_Returned) (auto simp: foldl_collect hostOfEntry_Online)

text \<open>The filtered and the unfiltered scan of the two peers.\<close>

theorem Scan_Online_witness:
  "Scan lan (Some agent) 1 ''alpha'' = Returned [hostOfEntry peerAlpha]
   \<and> Scan lan (Some agent) 1 [] = Returned [hostOfEntry peerAlpha, hostOfEntry peerBeta]
   \<and> Online (hostOfEntry peerAlpha) \<and> Online (hostOfEntry peerBeta)"
proof -
  have a: "Scan lan (Some agent) 1 ''alpha'' = Returned [hostOfEntry peerAlpha]"
    by (simp add: Scan_def zcoptionOf_def lan_def agent_def collect_def peerAlpha_def
        peerBeta_def)
  have b: "Scan lan (Some agent) 1 [] = Returned [hostOfEntry peerAlpha, hostOfEntry peerBeta]"
    by (simp add: Scan_def zcoptionOf_def lan_def agent_def collect_def)
  from Scan_Online [OF a] Scan_Online [OF b] a b show ?thesis by simp
qed

text \<open>
  C4. The collecting loop appends the record of a received advertisement, with a
  domain filter that is not empty, if and only if the line \<open>domain=\<close> followed by
  the filter is one of the advertisement's raw property lines, whatever the decoded
  fields are; with the empty filter it appends the record of every advertisement.
  \<^verbatim>\<open>Scan\<close> returns the records so appended for the advertisements that the loop has
  handled when the result is read, in the order of arrival.
\<close>

theorem Scan_domainFilter:
  "collect [] discoveredHost entry = discoveredHost @ [hostOfEntry entry]
   \<and> (domainFilter \<noteq> [] \<longrightarrow>
        collect domainFilter discoveredHost entry =
          (if ''domain='' @ domainFilter \<in> set (Text entry)
           then discoveredHost @ [hostOfEntry entry] else discoveredHost))
   \<and> (NewResolver env (zcoptionOf h) = Inr resolver
        \<and> Browse env resolver timeout ''_http._tcp'' ''local.'' = Inr entries \<longrightarrow>
        Scan env (Some h) timeout domainFilter =
          Returned (map hostOfEntry
            (filter (\<lambda>entry. domainFilter = [] \<or> ''domain='' @ domainFilter \<in> set (Text entry))
               (take (handled env) entries))))"
proof -
  have "collect [] discoveredHost entry = discoveredHost @ [hostOfEntry entry]"
    by (simp add: collect_def)
  moreover have "collect domainFilter discoveredHost entry =
          (if ''domain='' @ domainFilter \<in> set (Text entry)
           then discoveredHost @ [hostOfEntry entry] else discoveredHost)"
    if "domainFilter \<noteq> []"
    using that by (simp add: collect_eq del: append.simps)
  moreover have "Scan env (Some h) timeout domainFilter =
          Returned (map hostOfEntry
            (filter (\<lambda>entry. domainFilter = [] \<or> ''domain='' @ domainFilter \<in> set (Text entry))
               (take (handled env) entries)))"
    if "NewResolver env (zcoptionOf h) = Inr resolver"
      and "Browse env resolver timeout ''_http._tcp'' ''local.'' = Inr entries"
    using that by (simp add: Scan_def foldl_collect del: append.simps)
  ultimately show ?thesis by blast
qed

text \<open>
  The two peers under the filters \<open>alpha\<close>, \<open>beta\<close>, \<open>alph\<close> and the empty one, and
  the unfiltered scan that is read after the first peer only.
\<close>

theorem Scan_domainFilter_witness:
  "collect ''alpha'' [] peerAlpha = [hostOfEntry peerAlpha]
   \<and> collect ''alpha'' [] peerBeta = []
   \<and> Scan lan (Some agent) 5 ''alpha'' = Returned (map hostOfEntry [peerAlpha])
   \<and> Scan lan (Some agent) 5 ''beta'' = Returned (map hostOfEntry [peerBeta])
   \<and> Scan lan (Some agent) 5 ''alph'' = Returned []
   \<and> Scan lan (Some agent) 5 [] = Returned (map hostOfEntry [peerAlpha, peerBeta])
   \<and> Scan lanEarly (Some agent) 5 [] = Returned (map hostOfEntry [peerAlpha])"
proof -
  have r: "NewResolver lan (zcoptionOf agent) = Inr (Resolver None)"
    "NewResolver lanEarly (zcoptionOf agent) = Inr (Resolver None)"
    by (simp_all add: lanEarly_def lan_def zcoptionOf_def agent_def)
  have b: "Browse lan (Resolver None) 5 ''_http._tcp'' ''local.'' = Inr [peerAlpha, peerBeta]"
    "Browse lanEarly (Resolver None) 5 ''_http._tcp'' ''local.'' = Inr [peerAlpha, peerBeta]"
    by (simp_all add: lanEarly_def lan_def)
  have n: "handled lan = 2" "handled lanEarly = 1"
    by (simp_all add: lanEarly_def lan_def)
  have t: "''domain=alpha'' \<in> set (Text peerAlpha)" "''domain=alpha'' \<notin> set (Text peerBeta)"
    "''domain=beta'' \<notin> set (Text peerAlpha)" "''domain=beta'' \<in> set (Text peerBeta)"
    "''domain=alph'' \<notin> set (Text peerAlpha)" "''domain=alph'' \<notin> set (Text peerBeta)"
    by (simp_all add: peerAlpha_def peerBeta_def)
  show ?thesis
    using Scan_domainFilter [of "[]" peerAlpha "''alpha''" lan agent "Resolver None" 5
        "[peerAlpha, peerBeta]"]
      Scan_domainFilter [of "[]" peerBeta "''alpha''" lan agent "Resolver None" 5
        "[peerAlpha, peerBeta]"]
      Scan_domainFilter [of "[]" peerAlpha "''beta''" lan agent "Resolver None" 5
        "[peerAlpha, peerBeta]"]
      Scan_domainFilter [of "[]" peerAlpha "''alph''" lan agent "Resolver None" 5
        "[peerAlpha, peerBeta]"]
      Scan_domainFilter [of "[]" peerAlpha "[]" lan agent "Resolver None" 5
        "[peerAlpha, peerBeta]"]
      Scan_domainFilter [of "[]" peerAlpha "[]" lanEarly agent "Resolver None" 5
        "[peerAlpha, peerBeta]"]
      r b n t
    by simp
qed

text \<open>
  The filter reads the raw lines, not the decoded field: an advertisement with the
  lines \<open>domain=alpha\<close> and \<open>domain=beta\<close> passes the filter \<open>alpha\<close> and is decoded
  with the domain \<open>beta\<close>.
\<close>

lemma collect_raw_text:
  "collect ''alpha'' [] (peerAlpha \<lparr> Text := [''domain=alpha'', ''domain=beta''] \<rparr>)
     = [hostOfEntry (peerAlpha \<lparr> Text := [''domain=alpha'', ''domain=beta''] \<rparr>)]
   \<and> Domain' (hostOfEntry (peerAlpha \<lparr> Text := [''domain=alpha'', ''domain=beta''] \<rparr>)) = ''beta''"
  by (simp add: collect_def hostOfEntry_def parseProperties_def addProperty_def index_def)

section \<open>Failure of the resolver and of the browse\<close>

text \<open>
  Against C3 as stated (\<^verbatim>\<open>Scan\<close> returns an error to its caller and never ends the
  process): with a resolver that cannot be created, and with a browse that cannot
  start, \<^verbatim>\<open>Scan\<close> does not return; \<^verbatim>\<open>log.Fatalln\<close> ends the process.
\<close>

theorem Scan_failure_counterexample:
  "Scan noResolver (Some agent) 1 [] = Fatal ''Failed to initialize resolver: no multicast listener''
   \<and> Scan noBrowse (Some agent) 1 [] = Fatal ''Failed to browse: query failed''"
  by (simp add: Scan_def zcoptionOf_def noResolver_def noBrowse_def lan_def agent_def)

text \<open>
  C3, amended. When the creation of the resolver fails, and when the start of the
  browse fails, \<^verbatim>\<open>Scan\<close> prints the failure and ends the process through
  \<^verbatim>\<open>log.Fatalln\<close>: no result sequence and no error reach the caller.
\<close>

theorem Scan_failure_Fatal:
  "(NewResolver env (zcoptionOf h) = Inl err \<longrightarrow>
      Scan env (Some h) timeout domainFilter = Fatal (''Failed to initialize resolver: '' @ err))
   \<and> (NewResolver env (zcoptionOf h) = Inr resolver
        \<and> Browse env resolver timeout ''_http._tcp'' ''local.'' = Inl err \<longrightarrow>
      Scan env (Some h) timeout domainFilter = Fatal (''Failed to browse: '' @ err))"
  by (simp add: Scan_def del: append.simps)

theorem Scan_failure_Fatal_witness:
  "NewResolver noResolver (zcoptionOf agent) = Inl ''no multicast listener''
   \<and> Scan noResolver (Some agent) 3 ''alpha''
       = Fatal (''Failed to initialize resolver: '' @ ''no multicast listener'')
   \<and> NewResolver noBrowse (zcoptionOf agent) = Inr (Resolver None)
   \<and> Browse noBrowse (Resolver None) 3 ''_http._tcp'' ''local.'' = Inl ''query failed''
   \<and> Scan noBrowse (Some agent) 3 ''alpha'' = Fatal (''Failed to browse: '' @ ''query failed'')"
proof -
  have r: "NewResolver noResolver (zcoptionOf agent) = Inl ''no multicast listener''"
    by (simp add: noResolver_def lan_def)
  have r': "NewResolver noBrowse (zcoptionOf agent) = Inr (Resolver None)"
    by (simp add: noBrowse_def lan_def zcoptionOf_def agent_def)
  have b: "Browse noBrowse (Resolver None) 3 ''_http._tcp'' ''local.'' = Inl ''query failed''"
    by (simp add: noBrowse_def lan_def)
  from Scan_failure_Fatal [of noResolver agent "''no multicast listener''" 3 "''alpha''"]
    Scan_failure_Fatal [of noBrowse agent "''query failed''" 3 "''alpha''" "Resolver None"]
    r r' b
  show ?thesis by (simp del: append.simps)
qed

section \<open>Construction and teardown\<close>

text \<open>
  C7. \<^verbatim>\<open>NewMDNS\<close> returns the error of \<^verbatim>\<open>getMacAddr\<close> when the hardware addresses
  cannot be enumerated, with no agent; and it returns the error of
  \<^verbatim>\<open>zeroconf.Register\<close> when the registration fails, with an agent that holds no
  advertisement handle (all its fields are \<^verbatim>\<open>nil\<close>).
\<close>

theorem NewMDNS_failure:
  "(getMacAddr env = Inl err \<longrightarrow> NewMDNS env config MacOverride = (None, Some err, []))
   \<and> (getMacAddr env = Inr macAddress
        \<and> Register env (HostName config) ''_http._tcp'' ''local.'' (Port config)
             (txtRecords config macAddress) = Inl err \<longrightarrow>
      NewMDNS env config MacOverride =
        (Some \<lparr> MDNS = None, Host = None, IfaceOverride = None \<rparr>, Some err,
         [''[mDNS] Error when registering zeroconf broadcast message '' @ err]))"
  by (simp add: NewMDNS_def del: append.simps)

theorem NewMDNS_failure_witness:
  "getMacAddr noHardware = Inl ''route ip+net: no such network interface''
   \<and> NewMDNS noHardware thisHost [] = (None, Some ''route ip+net: no such network interface'', [])
   \<and> getMacAddr noRegister = Inr [''aa:bb:cc:dd:ee:ff'']
   \<and> Register noRegister (HostName thisHost) ''_http._tcp'' ''local.'' (Port thisHost)
        (txtRecords thisHost [''aa:bb:cc:dd:ee:ff'']) = Inl ''could not determine host''
   \<and> fst (NewMDNS noRegister thisHost []) = Some \<lparr> MDNS = None, Host = None, IfaceOverride = None \<rparr>
   \<and> fst (snd (NewMDNS noRegister thisHost [])) = Some ''could not determine host''"
proof -
  have m: "getMacAddr noHardware = Inl ''route ip+net: no such network interface''"
    by (simp add: noHardware_def lan_def)
  have m': "getMacAddr noRegister = Inr [''aa:bb:cc:dd:ee:ff'']"
    by (simp add: noRegister_def lan_def)
  have g: "Register noRegister (HostName thisHost) ''_http._tcp'' ''local.'' (Port thisHost)
        (txtRecords thisHost [''aa:bb:cc:dd:ee:ff'']) = Inl ''could not determine host''"
    by (simp add: noRegister_def lan_def)
  from NewMDNS_failure [of noHardware "''route ip+net: no such network interface''" thisHost "[]"]
    NewMDNS_failure [of noRegister "''could not determine host''" thisHost "[]"
      "[''aa:bb:cc:dd:ee:ff'']"] m m' g
  show ?thesis by (simp del: append.simps)
qed

text \<open>
  Teardown of an absent agent does nothing, and the second teardown of an agent that
  was constructed leaves it as the first one did.
\<close>

lemma Close_nil: "Close None = Returned None"
  by (simp add: Close_def)

lemma Close_twice:
  "MDNS h = Some srv \<Longrightarrow>
   Close (Some h) = Returned (Some (h\<lparr>MDNS := Some (srv\<lparr>isShutdown := True\<rparr>)\<rparr>))
   \<and> Close (Some (h\<lparr>MDNS := Some (srv\<lparr>isShutdown := True\<rparr>)\<rparr>))
       = Returned (Some (h\<lparr>MDNS := Some (srv\<lparr>isShutdown := True\<rparr>)\<rparr>))"
  by (simp add: Close_def Shutdown_def)

text \<open>
  C2. Teardown is claimed to complete without fault on an agent whose construction
  returned an error. After a failed registration \<^verbatim>\<open>NewMDNS\<close> returns an agent that
  is not \<^verbatim>\<open>nil\<close> and whose \<^verbatim>\<open>MDNS\<close> is \<^verbatim>\<open>nil\<close>; the guard of \<^verbatim>\<open>Close\<close> looks at the
  agent only, and \<^verbatim>\<open>m.MDNS.Shutdown()\<close> then runs on the \<^verbatim>\<open>nil\<close> server.
\<close>

theorem Close_after_failed_Register:
  "NewMDNS noRegister thisHost [] =
     (Some \<lparr> MDNS = None, Host = None, IfaceOverride = None \<rparr>, Some ''could not determine host'',
      [''[mDNS] Error when registering zeroconf broadcast message could not determine host''])
   \<and> Close (fst (NewMDNS noRegister thisHost [])) = NilPanic"
  by (simp add: NewMDNS_def noRegister_def lan_def Close_def Shutdown_def)

section \<open>The property codec\<close>

subsection \<open>Splitting and joining\<close>

lemma Split_not_Nil: "Split s sep \<noteq> []"
  by (induction s) (auto split: list.splits)

lemma Split_no_sep: "sep \<notin> set s \<Longrightarrow> Split s sep = [s]"
  by (induction s) auto

lemma Split_append_sep: "sep \<notin> set k \<Longrightarrow> Split (k @ sep # v) sep = k # Split v sep"
  by (induction k) auto

lemma length_Split: "length (Split s sep) = Suc (count_list s sep)"
  by (induction s) (auto simp: Split_not_Nil split: list.splits)

lemma Split_Join:
  "es \<noteq> [] \<Longrightarrow> \<forall>e\<in>set es. sep \<notin> set e \<Longrightarrow> Split (Join es [sep]) sep = es"
proof (induction es "[sep]" rule: Join.induct)
  case 1
  then show ?case by simp
next
  case (2 e)
  then show ?case by (simp add: Split_no_sep)
next
  case (3 e v va)
  then show ?case by (simp add: Split_append_sep)
qed

lemma Join_Nil_iff: "Join es [sep] = [] \<longleftrightarrow> es = [] \<or> es = [[]]"
  by (induction es "[sep]" rule: Join.induct) auto

lemma Join_avoids: "\<forall>e\<in>set es. c \<notin> set e \<Longrightarrow> c \<noteq> sep \<Longrightarrow> c \<notin> set (Join es [sep])"
  by (induction es "[sep]" rule: Join.induct) auto

lemma Split_one:
  "count_list s sep = 1 \<Longrightarrow>
   Split s sep = [takeWhile (\<lambda>c. c \<noteq> sep) s, tl (dropWhile (\<lambda>c. c \<noteq> sep) s)]"
proof (induction s)
  case Nil
  then show ?case by simp
next
  case (Cons c s)
  show ?case
  proof (cases "c = sep")
    case True
    with Cons.prems have "count_list s sep = 0" by simp
    then have "sep \<notin> set s" by (simp add: count_list_0_iff)
    with True show ?thesis by (simp add: Split_no_sep)
  next
    case False
    with Cons show ?thesis by simp
  qed
qed

lemma addProperty_one:
  "count_list v CHR ''='' = 1 \<Longrightarrow> addProperty m v = m(keyOf v \<mapsto> valueOf v)"
  by (simp add: addProperty_def Let_def Split_one keyOf_def valueOf_def)

lemma addProperty_other:
  "count_list v CHR ''='' \<noteq> 1 \<Longrightarrow> addProperty m v = m"
  by (simp add: addProperty_def Let_def length_Split)

lemma addProperty_kv:
  "CHR ''='' \<notin> set k \<Longrightarrow> CHR ''='' \<notin> set x \<Longrightarrow> addProperty m (k @ CHR ''='' # x) = m(k \<mapsto> x)"
  by (simp add: addProperty_def Let_def Split_append_sep Split_no_sep)

lemma addProperty_map_add: "addProperty (m ++ n) v = m ++ addProperty n v"
  by (simp add: addProperty_def Let_def)

lemma foldl_addProperty: "foldl addProperty m TEXT = m ++ parseProperties TEXT"
  unfolding parseProperties_def
  by (induction TEXT rule: rev_induct) (simp_all add: addProperty_map_add)

lemma parseProperties_append:
  "parseProperties (TEXT @ TEXT') = parseProperties TEXT ++ parseProperties TEXT'"
proof -
  have "parseProperties (TEXT @ TEXT') = foldl addProperty (parseProperties TEXT) TEXT'"
    by (simp add: parseProperties_def)
  then show ?thesis by (simp only: foldl_addProperty)
qed

lemma parseProperties_snoc:
  "parseProperties (TEXT @ [v]) = addProperty (parseProperties TEXT) v"
  by (simp add: parseProperties_def)

lemma parseProperties_Cons:
  "parseProperties (v # TEXT) = addProperty Map.empty v ++ parseProperties TEXT"
  using parseProperties_append [of "[v]" TEXT] by (simp add: parseProperties_def)

lemma addProperty_apply:
  "addProperty m v k =
     (if count_list v CHR ''='' = 1 \<and> keyOf v = k then Some (valueOf v) else m k)"
  by (cases "count_list v CHR ''='' = 1") (simp_all add: addProperty_one addProperty_other)

lemma parseProperties_drop_entry:
  assumes "count_list v CHR ''='' \<noteq> 1 \<or> keyOf v \<noteq> k"
  shows "parseProperties (TEXT @ v # TEXT') k = parseProperties (TEXT @ TEXT') k"
proof -
  have "addProperty Map.empty v k = None"
    using assms by (auto simp: addProperty_apply)
  then show ?thesis
    by (simp add: parseProperties_append parseProperties_Cons map_add_def
        split: option.splits)
qed

lemma parseProperties_Some:
  "parseProperties TEXT k = Some x \<Longrightarrow> \<exists>v\<in>set TEXT. count_list v CHR ''='' = 1 \<and> keyOf v = k"
  by (induction TEXT arbitrary: x rule: rev_induct)
    (auto simp: parseProperties_snoc addProperty_apply parseProperties_def split: if_splits)

lemma macAddrsOf_eq:
  "macAddrsOf m = (case m ''mac_addr'' of None \<Rightarrow> [] | Some val \<Rightarrow> if val = [] then [] else Split val CHR '','')"
  by (simp add: macAddrsOf_def index_def split: option.splits)

lemma Decode_cong:
  assumes "\<And>k. k \<in> knownKeys \<Longrightarrow> parseProperties TEXT k = parseProperties TEXT' k"
  shows "Decode TEXT = Decode TEXT'"
proof -
  have "parseProperties TEXT ''version_build'' = parseProperties TEXT' ''version_build''"
    "parseProperties TEXT ''version_minor'' = parseProperties TEXT' ''version_minor''"
    "parseProperties TEXT ''vendor'' = parseProperties TEXT' ''vendor''"
    "parseProperties TEXT ''model'' = parseProperties TEXT' ''model''"
    "parseProperties TEXT ''uuid'' = parseProperties TEXT' ''uuid''"
    "parseProperties TEXT ''domain'' = parseProperties TEXT' ''domain''"
    "parseProperties TEXT ''mac_addr'' = parseProperties TEXT' ''mac_addr''"
    by (rule assms, simp add: knownKeys_def)+
  then show ?thesis
    by (simp add: Decode_def hostOfEntry_def Let_def index_def macAddrsOf_eq)
qed

lemma Decode_fields:
  "Domain' (Decode TEXT) = index (parseProperties TEXT) ''domain''"
  "Model (Decode TEXT) = index (parseProperties TEXT) ''model''"
  "UUID (Decode TEXT) = index (parseProperties TEXT) ''uuid''"
  "Vendor (Decode TEXT) = index (parseProperties TEXT) ''vendor''"
  "BuildVersion (Decode TEXT) = index (parseProperties TEXT) ''version_build''"
  "MinorVersion (Decode TEXT) = index (parseProperties TEXT) ''version_minor''"
  "MacAddr (Decode TEXT) = macAddrsOf (parseProperties TEXT)"
  by (simp_all add: Decode_def hostOfEntry_def Let_def)

lemma addProperty_known:
  assumes "CHR ''='' \<notin> set x"
  shows "addProperty m (''version_build='' @ x) = m(''version_build'' \<mapsto> x)"
    and "addProperty m (''version_minor='' @ x) = m(''version_minor'' \<mapsto> x)"
    and "addProperty m (''vendor='' @ x) = m(''vendor'' \<mapsto> x)"
    and "addProperty m (''model='' @ x) = m(''model'' \<mapsto> x)"
    and "addProperty m (''uuid='' @ x) = m(''uuid'' \<mapsto> x)"
    and "addProperty m (''domain='' @ x) = m(''domain'' \<mapsto> x)"
    and "addProperty m (''mac_addr='' @ x) = m(''mac_addr'' \<mapsto> x)"
  using assms
    addProperty_kv [of "''version_build''" x m] addProperty_kv [of "''version_minor''" x m]
    addProperty_kv [of "''vendor''" x m] addProperty_kv [of "''model''" x m]
    addProperty_kv [of "''uuid''" x m] addProperty_kv [of "''domain''" x m]
    addProperty_kv [of "''mac_addr''" x m]
  by simp_all

lemma macAddrsOf_Join:
  assumes "\<forall>a\<in>set macs. CHR '','' \<notin> set a" and "macs \<noteq> [[]]"
    and "m ''mac_addr'' = Some (Join macs '','')"
  shows "macAddrsOf m = macs"
proof (cases "macs = []")
  case True
  with assms(3) show ?thesis by (simp add: macAddrsOf_eq)
next
  case False
  with assms(2) have "Join macs '','' \<noteq> []" by (simp add: Join_Nil_iff)
  with False assms(1,3) show ?thesis
    by (simp add: macAddrsOf_eq Split_Join)
qed

subsection \<open>Round trip\<close>

text \<open>
  Against C1 as stated (for every record): a field that holds a \<open>=\<close> is decoded as
  the empty string, because its line splits into more than two parts; a hardware
  address that holds a comma is decoded as two; and the list whose only entry is the
  empty string is decoded as the empty list.
\<close>

theorem Decode_Encode_counterexample:
  "Vendor (Decode (Encode (thisHost \<lparr> Vendor := ''a=b'' \<rparr>))) = []
   \<and> MacAddr (Decode (Encode (thisHost \<lparr> MacAddr := [''aa,bb''] \<rparr>))) = [''aa'', ''bb'']
   \<and> MacAddr (Decode (Encode (thisHost \<lparr> MacAddr := [[]] \<rparr>))) = []"
  by (simp add: Decode_def hostOfEntry_def Encode_def txtRecords_def thisHost_def
      parseProperties_def addProperty_def index_def macAddrsOf_def)

text \<open>
  C1, amended. For every record whose fields \<open>Vendor\<close>, \<open>Model\<close>, \<open>UUID\<close>, \<open>Domain\<close>,
  \<open>BuildVersion\<close> and \<open>MinorVersion\<close> hold no \<open>=\<close>, whose hardware addresses hold
  neither \<open>=\<close> nor a comma, and whose list of hardware addresses is not the list of
  one empty string, decoding the encoded property lines gives these six fields back
  byte for byte and the hardware addresses as an equal sequence.
\<close>

theorem Decode_Encode_roundtrip:
  assumes "CHR ''='' \<notin> set (Vendor r)" and "CHR ''='' \<notin> set (Model r)"
    and "CHR ''='' \<notin> set (UUID r)" and "CHR ''='' \<notin> set (Domain' r)"
    and "CHR ''='' \<notin> set (BuildVersion r)" and "CHR ''='' \<notin> set (MinorVersion r)"
    and "\<forall>a \<in> set (MacAddr r). CHR ''='' \<notin> set a \<and> CHR '','' \<notin> set a"
    and "MacAddr r \<noteq> [[]]"
  shows "Vendor (Decode (Encode r)) = Vendor r \<and> Model (Decode (Encode r)) = Model r
    \<and> UUID (Decode (Encode r)) = UUID r \<and> Domain' (Decode (Encode r)) = Domain' r
    \<and> BuildVersion (Decode (Encode r)) = BuildVersion r
    \<and> MinorVersion (Decode (Encode r)) = MinorVersion r
    \<and> MacAddr (Decode (Encode r)) = MacAddr r"
proof -
  have j: "CHR ''='' \<notin> set (Join (MacAddr r) '','')"
    using assms(7) by (intro Join_avoids) auto
  have p: "parseProperties (Encode r) =
      [''version_build'' \<mapsto> BuildVersion r, ''version_minor'' \<mapsto> MinorVersion r,
       ''vendor'' \<mapsto> Vendor r, ''model'' \<mapsto> Model r, ''uuid'' \<mapsto> UUID r,
       ''domain'' \<mapsto> Domain' r, ''mac_addr'' \<mapsto> Join (MacAddr r) '','']"
    using assms(1-6) j
    by (simp add: Encode_def txtRecords_def parseProperties_def addProperty_known
        del: append.simps)
  have m: "macAddrsOf (parseProperties (Encode r)) = MacAddr r"
    using assms(7,8) by (intro macAddrsOf_Join) (auto simp: p)
  show ?thesis
    by (simp add: Decode_fields m) (simp add: p index_def)
qed

theorem Decode_Encode_roundtrip_witness:
  "CHR ''='' \<notin> set (Vendor thisHost) \<and> MacAddr thisHost \<noteq> [[]]
   \<and> Vendor (Decode (Encode thisHost)) = ''acme'' \<and> Model (Decode (Encode thisHost)) = ''box''
   \<and> UUID (Decode (Encode thisHost)) = ''0001'' \<and> Domain' (Decode (Encode thisHost)) = ''alpha''
   \<and> BuildVersion (Decode (Encode thisHost)) = ''2.0''
   \<and> MinorVersion (Decode (Encode thisHost)) = ''21''
   \<and> MacAddr (Decode (Encode thisHost)) = [''aa:bb:cc:dd:ee:ff'', ''02:00:00:00:00:01'']"
proof -
  have "CHR ''='' \<notin> set (Vendor thisHost)" "CHR ''='' \<notin> set (Model thisHost)"
    "CHR ''='' \<notin> set (UUID thisHost)" "CHR ''='' \<notin> set (Domain' thisHost)"
    "CHR ''='' \<notin> set (BuildVersion thisHost)" "CHR ''='' \<notin> set (MinorVersion thisHost)"
    "\<forall>a \<in> set (MacAddr thisHost). CHR ''='' \<notin> set a \<and> CHR '','' \<notin> set a"
    "MacAddr thisHost \<noteq> [[]]"
    by (simp_all add: thisHost_def)
  from Decode_Encode_roundtrip [OF this] this(1,8) show ?thesis
    by (simp add: thisHost_def)
qed

subsection \<open>The parsing rule\<close>

text \<open>
  Against C5 as stated (each entry is split at its first \<open>=\<close>): the entry
  \<open>domain=a=b\<close> has the key \<open>domain\<close> and the value \<open>a=b\<close> under that rule; the
  code splits it into three parts and discards it.
\<close>

theorem Decode_first_equals_counterexample:
  "index (parsePropertiesFirst [''domain=a=b'']) ''domain'' = ''a=b''
   \<and> Domain' (Decode [''domain=a=b'']) = []"
  by (simp add: parsePropertiesFirst_def addPropertyFirst_def keyOf_def valueOf_def index_def
      Decode_def hostOfEntry_def parseProperties_def addProperty_def)

text \<open>
  C5, amended. Decoding splits each property entry at every \<open>=\<close> and keeps the
  entries that split into exactly two parts, that is those with exactly one \<open>=\<close>;
  every other entry is discarded, an entry with a second \<open>=\<close> in its value
  included. Entries with unknown keys are ignored. A kept entry puts its value under
  its key, in place of an earlier value for that key, and the fields of the record
  are read from the keys of the fixed key set.
\<close>

theorem Decode_parsing_rule:
  "length (Split v CHR ''='') = Suc (count_list v CHR ''='')
   \<and> (count_list v CHR ''='' \<noteq> 1 \<longrightarrow> Decode (TEXT @ v # TEXT') = Decode (TEXT @ TEXT'))
   \<and> (keyOf v \<notin> knownKeys \<longrightarrow> Decode (TEXT @ v # TEXT') = Decode (TEXT @ TEXT'))
   \<and> (count_list v CHR ''='' = 1 \<longrightarrow>
        parseProperties (TEXT @ [v]) = (parseProperties TEXT)(keyOf v \<mapsto> valueOf v))
   \<and> Domain' (Decode TEXT) = index (parseProperties TEXT) ''domain''
   \<and> Model (Decode TEXT) = index (parseProperties TEXT) ''model''
   \<and> UUID (Decode TEXT) = index (parseProperties TEXT) ''uuid''
   \<and> Vendor (Decode TEXT) = index (parseProperties TEXT) ''vendor''
   \<and> BuildVersion (Decode TEXT) = index (parseProperties TEXT) ''version_build''
   \<and> MinorVersion (Decode TEXT) = index (parseProperties TEXT) ''version_minor''
   \<and> MacAddr (Decode TEXT) =
       (if index (parseProperties TEXT) ''mac_addr'' = [] then []
        else Split (index (parseProperties TEXT) ''mac_addr'') CHR '','')"
proof -
  have a: "Decode (TEXT @ v # TEXT') = Decode (TEXT @ TEXT')" if "count_list v CHR ''='' \<noteq> 1"
    using that by (intro Decode_cong parseProperties_drop_entry) simp
  have b: "Decode (TEXT @ v # TEXT') = Decode (TEXT @ TEXT')" if "keyOf v \<notin> knownKeys"
    using that by (intro Decode_cong parseProperties_drop_entry) auto
  have c: "MacAddr (Decode TEXT) =
       (if index (parseProperties TEXT) ''mac_addr'' = [] then []
        else Split (index (parseProperties TEXT) ''mac_addr'') CHR '','')"
    by (simp add: Decode_fields macAddrsOf_eq index_def split: option.splits)
  show ?thesis
    using a b c
    by (simp add: length_Split parseProperties_snoc addProperty_one Decode_fields(1-6))
qed

theorem Decode_parsing_rule_witness:
  "count_list ''domain=a=b'' CHR ''='' = 2
   \<and> Decode [''uuid=1'', ''domain=a=b'', ''vendor=x''] = Decode [''uuid=1'', ''vendor=x'']
   \<and> keyOf ''color=red'' = ''color''
   \<and> Decode [''uuid=1'', ''color=red'', ''vendor=x''] = Decode [''uuid=1'', ''vendor=x'']
   \<and> count_list ''domain=alpha'' CHR ''='' = 1
   \<and> parseProperties [''uuid=1'', ''domain=alpha'']
       = (parseProperties [''uuid=1''])(''domain'' \<mapsto> ''alpha'')"
proof -
  have c: "count_list ''domain=a=b'' CHR ''='' = 2" "count_list ''domain=alpha'' CHR ''='' = 1"
    by simp_all
  have k: "keyOf ''color=red'' = ''color''" "keyOf ''domain=alpha'' = ''domain''"
    "valueOf ''domain=alpha'' = ''alpha''"
    by (simp_all add: keyOf_def valueOf_def)
  have u: "''color'' \<notin> knownKeys" by (simp add: knownKeys_def)
  from Decode_parsing_rule [of "''domain=a=b''" "[''uuid=1'']" "[''vendor=x'']"]
    Decode_parsing_rule [of "''color=red''" "[''uuid=1'']" "[''vendor=x'']"]
    Decode_parsing_rule [of "''domain=alpha''" "[''uuid=1'']" "[]"]
    c k u
  show ?thesis by simp
qed

subsection \<open>No hardware address\<close>

text \<open>
  C8. A record with no hardware address is encoded and decoded to a record with no
  hardware address; property lines without a \<open>mac_addr\<close> key, and property lines
  whose \<open>mac_addr\<close> is empty, are decoded to the empty sequence as well, and
  decoding never gives the sequence whose only entry is the empty string. Decoding
  has no error result.
\<close>

theorem Decode_empty_MacAddr:
  "(MacAddr r = [] \<longrightarrow> MacAddr (Decode (Encode r)) = [])
   \<and> ((\<forall>v \<in> set TEXT. keyOf v \<noteq> ''mac_addr'') \<longrightarrow> MacAddr (Decode TEXT) = [])
   \<and> MacAddr (Decode (TEXT @ [''mac_addr=''])) = []
   \<and> (index (parseProperties TEXT) ''mac_addr'' = [] \<longrightarrow> MacAddr (Decode TEXT) = [])
   \<and> MacAddr (Decode TEXT) \<noteq> [[]]"
proof -
  have e: "parseProperties (TEXT @ [''mac_addr='']) ''mac_addr'' = Some []" for TEXT
    using addProperty_known(7) [of "[]"] by (simp add: parseProperties_snoc)
  have c: "MacAddr (Decode (TEXT @ [''mac_addr=''])) = []" for TEXT
    by (simp add: Decode_fields macAddrsOf_eq e del: append.simps)
  have a: "MacAddr (Decode (Encode r)) = []" if "MacAddr r = []"
  proof -
    from that have "Encode r = butlast (Encode r) @ [''mac_addr='']"
      by (simp add: Encode_def txtRecords_def)
    then show ?thesis using c [of "butlast (Encode r)"] by simp
  qed
  have b: "MacAddr (Decode TEXT) = []" if "\<forall>v \<in> set TEXT. keyOf v \<noteq> ''mac_addr''"
  proof -
    from that have "parseProperties TEXT ''mac_addr'' = None"
      using parseProperties_Some [of TEXT "''mac_addr''"] by (cases "parseProperties TEXT ''mac_addr''") auto
    then show ?thesis by (simp add: Decode_fields macAddrsOf_eq)
  qed
  have d: "MacAddr (Decode TEXT) \<noteq> [[]]"
  proof (cases "parseProperties TEXT ''mac_addr''")
    case None
    then show ?thesis by (simp add: Decode_fields macAddrsOf_eq)
  next
    case (Some val)
    show ?thesis
    proof (cases "val = []")
      case True
      with Some show ?thesis by (simp add: Decode_fields macAddrsOf_eq)
    next
      case False
      then obtain c s where "val = c # s" by (cases val) auto
      with Some show ?thesis
        by (auto simp: Decode_fields macAddrsOf_eq Split_not_Nil split: list.splits)
    qed
  qed
  have i: "MacAddr (Decode TEXT) = []" if "index (parseProperties TEXT) ''mac_addr'' = []"
    using that by (simp add: Decode_fields macAddrsOf_eq index_def split: option.splits)
  from a b c d i show ?thesis by blast
qed

theorem Decode_empty_MacAddr_witness:
  "MacAddr (thisHost \<lparr> MacAddr := [] \<rparr>) = []
   \<and> MacAddr (Decode (Encode (thisHost \<lparr> MacAddr := [] \<rparr>))) = []
   \<and> keyOf ''version_build=2.0'' = ''version_build''
   \<and> MacAddr (Decode [''version_build=2.0'', ''domain=alpha'', ''uuid=000a'']) = []"
proof -
  have k: "\<forall>v \<in> set [''version_build=2.0'', ''domain=alpha'', ''uuid=000a''].
    keyOf v \<noteq> ''mac_addr''"
    by (simp add: keyOf_def)
  have k': "keyOf ''version_build=2.0'' = ''version_build''"
    by (simp add: keyOf_def)
  from Decode_empty_MacAddr [of "thisHost \<lparr> MacAddr := [] \<rparr>"
      "[''version_build=2.0'', ''domain=alpha'', ''uuid=000a'']"] k k'
  show ?thesis by simp
qed

section \<open>Interface selection\<close>

subsection \<open>The concrete host\<close>

lemma decimalDigit_simps:
  "decimalDigit 0 = CHR ''0''" "decimalDigit (Suc 0) = CHR ''1''" "decimalDigit 2 = CHR ''2''"
  "decimalDigit 3 = CHR ''3''" "decimalDigit 4 = CHR ''4''" "decimalDigit 5 = CHR ''5''"
  "decimalDigit 6 = CHR ''6''" "decimalDigit 7 = CHR ''7''" "decimalDigit 8 = CHR ''8''"
  "decimalDigit 9 = CHR ''9''"
  unfolding decimalDigit_def by code_simp+

lemma HardwareAddr_String_eth0: "HardwareAddr_String (HardwareAddr eth0) = ''aa:bb:cc:dd:ee:ff''"
  by (simp add: eth0_def HardwareAddr_String_def hexByte_def hexDigit_def drop_bit_eq_div)

lemma HardwareAddr_String_lo0: "HardwareAddr_String (HardwareAddr lo0) = []"
  by (simp add: lo0_def HardwareAddr_String_def)

lemma ipv4sOf_eth0: "ipv4sOf eth0Addrs = [[10, 0, 0, 1], [10, 0, 0, 2]]"
  by (simp add: ipv4sOf_def eth0Addrs_def List.map_filter_def To4_def)

lemma IPv4_String_eth0: "map IPv4_String (ipv4sOf eth0Addrs) = [''10.0.0.1'', ''10.0.0.2'']"
  by (simp add: ipv4sOf_eth0 IPv4_String_def ubtoa_def decimalDigit_simps)

lemma ifaceIpOf_eth0: "ifaceIpOf (Addrs eth0) = ''10.0.0.2''"
  by (simp add: eth0_def eth0Addrs_def ifaceIpOf_def ifaceIpStep_def To4_def IPv4_String_def
      ubtoa_def decimalDigit_simps)

lemma TrimSpace_override: "TrimSpace ''AA-BB-CC-DD-EE-FF'' = ''AA-BB-CC-DD-EE-FF''"
  by (simp add: TrimSpace_def TrimLeftSpace.simps TrimRightSpace.simps leadingSpace_def
      trailingSpace_def spaceRunes_def)

lemma TrimSpace_eth0: "TrimSpace ''aa-bb-cc-dd-ee-ff'' = ''aa-bb-cc-dd-ee-ff''"
  by (simp add: TrimSpace_def TrimLeftSpace.simps TrimRightSpace.simps leadingSpace_def
      trailingSpace_def spaceRunes_def)

subsection \<open>The address printed for the interface found\<close>

lemma ipv4sOf_snoc:
  "ipv4sOf (addrs @ [addr]) =
     ipv4sOf addrs @ (case To4 (addrIP addr) of None \<Rightarrow> [] | Some p4 \<Rightarrow> [p4])"
  by (simp add: ipv4sOf_def List.map_filter_def split: option.splits)

lemma foldl_ifaceIpStep:
  "foldl ifaceIpStep ifaceIp addrs =
     (if ipv4sOf addrs = [] then ifaceIp else IPv4_String (last (ipv4sOf addrs)))"
proof (induction addrs rule: rev_induct)
  case Nil
  then show ?case by (simp add: ipv4sOf_def List.map_filter_def)
next
  case (snoc addr addrs)
  then show ?case
    by (cases "To4 (addrIP addr)") (simp_all add: ipv4sOf_snoc ifaceIpStep_def)
qed

lemma ifaceIpOf_eq:
  "ifaceIpOf r =
     (case r of
        Inl err \<Rightarrow> []
      | Inr addrs \<Rightarrow>
          if ipv4sOf addrs = [] then (if addrs = [] then [] else Addr_String (hd addrs))
          else IPv4_String (last (ipv4sOf addrs)))"
  by (cases r) (auto simp: ifaceIpOf_def foldl_ifaceIpStep ipv4sOf_def List.map_filter_def hd_conv_nth)

lemma ifaceLoop_Some:
  "ifaceLoop ifaces MacOverride = (Some (iface, ifaceIp), MacOverride') \<Longrightarrow>
   iface \<in> set ifaces \<and> ifaceIp = ifaceIpOf (Addrs iface)"
  by (induction ifaces arbitrary: MacOverride) (auto simp: Let_def split: if_splits)

text \<open>
  Against C6 as stated (the first IPv4 address of the interface): the interface
  \<open>eth0\<close> carries the IPv4 addresses 10.0.0.1 and 10.0.0.2, in this order, and the
  loop leaves the second one in \<^verbatim>\<open>ifaceIp\<close>.
\<close>

theorem ifaceIp_first_IPv4_counterexample:
  "ifaceLoop [lo0, eth0] ''AA:BB:CC:DD:EE:FF'' = (Some (eth0, ''10.0.0.2''), ''AA-BB-CC-DD-EE-FF'')
   \<and> Addrs eth0 = Inr eth0Addrs
   \<and> map IPv4_String (ipv4sOf eth0Addrs) = [''10.0.0.1'', ''10.0.0.2'']"
  by (simp add: HardwareAddr_String_eth0 HardwareAddr_String_lo0 ifaceIpOf_eth0 ReplaceAll_def
      TrimSpace_override equalFoldByte_def IPv4_String_eth0) (simp add: eth0_def)

text \<open>The line that \<^verbatim>\<open>NewMDNS\<close> logs for it.\<close>

lemma NewMDNS_log:
  "snd (snd (NewMDNS lan thisHost ''AA:BB:CC:DD:EE:FF'')) =
     [''[mDNS] Entering force MAC address mode, listening on: AA-BB-CC-DD-EE-FF(IP address: 10.0.0.2)'']"
  by (simp add: NewMDNS_def lan_def selectIface_def HardwareAddr_String_eth0
      HardwareAddr_String_lo0 ifaceIpOf_eth0 ReplaceAll_def TrimSpace_override
      equalFoldByte_def)

text \<open>
  C6, amended. When the override matches an interface, the address printed is the
  last IPv4 address bound to that interface, in the order of \<^verbatim>\<open>iface.Addrs()\<close>;
  any IPv4 address is preferred to the other addresses. Without IPv4 address it is
  the text of the interface's first address, and it is empty when the interface has
  no address or its addresses cannot be read.
\<close>

theorem ifaceIp_last_IPv4:
  assumes "ifaceLoop ifaces MacOverride = (Some (iface, ifaceIp), MacOverride')"
  shows "ifaceIp =
     (case Addrs iface of
        Inl err \<Rightarrow> []
      | Inr addrs \<Rightarrow>
          if ipv4sOf addrs = [] then (if addrs = [] then [] else Addr_String (hd addrs))
          else IPv4_String (last (ipv4sOf addrs)))"
  using ifaceLoop_Some [OF assms] by (simp add: ifaceIpOf_eq)

theorem ifaceIp_last_IPv4_witness:
  "ifaceLoop [lo0, eth0] ''aa:bb:cc:dd:ee:ff'' = (Some (eth0, ''10.0.0.2''), ''aa-bb-cc-dd-ee-ff'')
   \<and> IPv4_String (last (ipv4sOf eth0Addrs)) = ''10.0.0.2''"
proof -
  have l: "ifaceLoop [lo0, eth0] ''aa:bb:cc:dd:ee:ff''
      = (Some (eth0, ''10.0.0.2''), ''aa-bb-cc-dd-ee-ff'')"
    by (simp add: HardwareAddr_String_eth0 HardwareAddr_String_lo0 ifaceIpOf_eth0
        ReplaceAll_def TrimSpace_eth0 equalFoldByte_def)
  from ifaceIp_last_IPv4 [OF l] l show ?thesis
    by (simp add: eth0_def ipv4sOf_eth0)
qed

subsection \<open>Comparing hardware addresses\<close>

lemma toLowerByte_upper:
  "65 \<le> (of_char c :: nat) \<Longrightarrow> (of_char c :: nat) \<le> 90 \<Longrightarrow>
   (of_char (toLowerByte c) :: nat) = of_char c + 32"
  by (auto simp: toLowerByte_def)

lemma toLowerByte_other:
  "\<not> (65 \<le> (of_char c :: nat) \<and> (of_char c :: nat) \<le> 90) \<Longrightarrow> toLowerByte c = c"
  by (auto simp: toLowerByte_def)

lemma equalFoldByte_iff: "equalFoldByte sr tr \<longleftrightarrow> toLowerByte sr = toLowerByte tr"
proof -
  have e: "toLowerByte sr = toLowerByte tr \<longleftrightarrow>
      (of_char (toLowerByte sr) :: nat) = of_char (toLowerByte tr)"
    by simp
  have n: "sr = tr \<longleftrightarrow> (of_char sr :: nat) = of_char tr"
    by simp
  consider (uu) "65 \<le> (of_char sr :: nat) \<and> (of_char sr :: nat) \<le> 90"
      "65 \<le> (of_char tr :: nat) \<and> (of_char tr :: nat) \<le> 90"
    | (ul) "65 \<le> (of_char sr :: nat) \<and> (of_char sr :: nat) \<le> 90"
      "\<not> (65 \<le> (of_char tr :: nat) \<and> (of_char tr :: nat) \<le> 90)"
    | (lu) "\<not> (65 \<le> (of_char sr :: nat) \<and> (of_char sr :: nat) \<le> 90)"
      "65 \<le> (of_char tr :: nat) \<and> (of_char tr :: nat) \<le> 90"
    | (ll) "\<not> (65 \<le> (of_char sr :: nat) \<and> (of_char sr :: nat) \<le> 90)"
      "\<not> (65 \<le> (of_char tr :: nat) \<and> (of_char tr :: nat) \<le> 90)"
    by blast
  then show ?thesis
  proof cases
    case uu
    then show ?thesis
      unfolding e n equalFoldByte_def Let_def
      by (simp add: toLowerByte_upper min_def max_def)
  next
    case ul
    then show ?thesis
      unfolding e n equalFoldByte_def Let_def
      by (auto simp: toLowerByte_upper toLowerByte_other min_def max_def)
  next
    case lu
    then show ?thesis
      unfolding e n equalFoldByte_def Let_def
      by (auto simp: toLowerByte_upper toLowerByte_other min_def max_def)
  next
    case ll
    then show ?thesis
      unfolding e n equalFoldByte_def Let_def
      by (auto simp: toLowerByte_other min_def max_def)
  qed
qed

lemma EqualFold_iff: "EqualFold s t \<longleftrightarrow> map toLowerByte s = map toLowerByte t"
  by (induction s t rule: EqualFold.induct) (simp_all add: equalFoldByte_iff)

text \<open>
  Trimming commutes with a map on bytes that neither changes nor produces a byte of a
  space rune.
\<close>

lemma map_eq_rune:
  assumes "\<forall>b \<in> set r. \<forall>c. f c = b \<longleftrightarrow> c = b"
  shows "map f u = r \<longleftrightarrow> u = r"
  using assms
proof (induction r arbitrary: u)
  case Nil
  then show ?case by simp
next
  case (Cons b r)
  then show ?case by (cases u) auto
qed

lemma leadingSpace_map:
  assumes "\<forall>r \<in> set spaceRunes. \<forall>b \<in> set r. \<forall>c. f c = b \<longleftrightarrow> c = b"
  shows "leadingSpace (map f s) = leadingSpace s"
proof -
  have "find (\<lambda>r. take (length r) (map f s) = r) spaceRunes
      = find (\<lambda>r. take (length r) s = r) spaceRunes"
  proof (rule find_cong [OF refl])
    fix r assume "r \<in> set spaceRunes"
    with assms have "\<forall>b \<in> set r. \<forall>c. f c = b \<longleftrightarrow> c = b" by blast
    from map_eq_rune [OF this, of "take (length r) s"]
    show "(take (length r) (map f s) = r) = (take (length r) s = r)"
      by (simp add: take_map)
  qed
  then show ?thesis by (simp add: leadingSpace_def)
qed

lemma trailingSpace_map:
  assumes "\<forall>r \<in> set spaceRunes. \<forall>b \<in> set r. \<forall>c. f c = b \<longleftrightarrow> c = b"
  shows "trailingSpace (map f s) = trailingSpace s"
proof -
  have "find (\<lambda>r. take (length r) (rev (map f s)) = rev r) spaceRunes
      = find (\<lambda>r. take (length r) (rev s) = rev r) spaceRunes"
  proof (rule find_cong [OF refl])
    fix r assume "r \<in> set spaceRunes"
    with assms have "\<forall>b \<in> set (rev r). \<forall>c. f c = b \<longleftrightarrow> c = b" by simp
    from map_eq_rune [OF this, of "take (length r) (rev s)"]
    show "(take (length r) (rev (map f s)) = rev r) = (take (length r) (rev s) = rev r)"
      by (simp add: take_map rev_map)
  qed
  then show ?thesis by (simp add: trailingSpace_def)
qed

lemma TrimLeftSpace_map:
  assumes "\<forall>r \<in> set spaceRunes. \<forall>b \<in> set r. \<forall>c. f c = b \<longleftrightarrow> c = b"
  shows "TrimLeftSpace (map f s) = map f (TrimLeftSpace s)"
proof (induction s rule: TrimLeftSpace.induct)
  case (1 s)
  show ?case
  proof (cases "leadingSpace s")
    case None
    then show ?thesis
      using leadingSpace_map [OF assms, of s]
      by (simp add: TrimLeftSpace.simps [of s] TrimLeftSpace.simps [of "map f s"])
  next
    case (Some n)
    with 1 have "TrimLeftSpace (map f (drop n s)) = map f (TrimLeftSpace (drop n s))"
      by simp
    with Some show ?thesis
      using leadingSpace_map [OF assms, of s]
      by (simp add: TrimLeftSpace.simps [of s] TrimLeftSpace.simps [of "map f s"] drop_map)
  qed
qed

lemma TrimRightSpace_map:
  assumes "\<forall>r \<in> set spaceRunes. \<forall>b \<in> set r. \<forall>c. f c = b \<longleftrightarrow> c = b"
  shows "TrimRightSpace (map f s) = map f (TrimRightSpace s)"
proof (induction s rule: TrimRightSpace.induct)
  case (1 s)
  show ?case
  proof (cases "trailingSpace s")
    case None
    then show ?thesis
      using trailingSpace_map [OF assms, of s]
      by (simp add: TrimRightSpace.simps [of s] TrimRightSpace.simps [of "map f s"])
  next
    case (Some n)
    with 1 have "TrimRightSpace (map f (take (length s - n) s))
        = map f (TrimRightSpace (take (length s - n) s))"
      by simp
    with Some show ?thesis
      using trailingSpace_map [OF assms, of s]
      by (simp add: TrimRightSpace.simps [of s] TrimRightSpace.simps [of "map f s"] take_map)
  qed
qed

lemma TrimSpace_map:
  assumes "\<forall>r \<in> set spaceRunes. \<forall>b \<in> set r. \<forall>c. f c = b \<longleftrightarrow> c = b"
  shows "TrimSpace (map f s) = map f (TrimSpace s)"
  by (simp add: TrimSpace_def TrimLeftSpace_map [OF assms] TrimRightSpace_map [OF assms])

lemma toLowerByte_eq_iff:
  assumes "\<not> (65 \<le> (of_char b :: nat) \<and> (of_char b :: nat) \<le> 90)"
    and "\<not> (97 \<le> (of_char b :: nat) \<and> (of_char b :: nat) \<le> 122)"
  shows "toLowerByte c = b \<longleftrightarrow> c = b"
proof (cases "65 \<le> (of_char c :: nat) \<and> (of_char c :: nat) \<le> 90")
  case True
  then have "(of_char (toLowerByte c) :: nat) = of_char c + 32"
    by (simp add: toLowerByte_upper)
  with True assms show ?thesis by auto
next
  case False
  then show ?thesis by (simp add: toLowerByte_other)
qed

lemma spaceRunes_bytes:
  "\<forall>r \<in> set spaceRunes. \<forall>b \<in> set r.
     \<not> (65 \<le> (of_char b :: nat) \<and> (of_char b :: nat) \<le> 90)
     \<and> \<not> (97 \<le> (of_char b :: nat) \<and> (of_char b :: nat) \<le> 122)
     \<and> b \<noteq> CHR '':'' \<and> b \<noteq> CHR ''-''"
  by (simp add: spaceRunes_def)

lemma toLowerByte_space_safe:
  "\<forall>r \<in> set spaceRunes. \<forall>b \<in> set r. \<forall>c. toLowerByte c = b \<longleftrightarrow> c = b"
proof (intro ballI allI)
  fix r b c assume "r \<in> set spaceRunes" "b \<in> set r"
  with spaceRunes_bytes
  have "\<not> (65 \<le> (of_char b :: nat) \<and> (of_char b :: nat) \<le> 90)"
    "\<not> (97 \<le> (of_char b :: nat) \<and> (of_char b :: nat) \<le> 122)"
    by blast+
  then show "toLowerByte c = b \<longleftrightarrow> c = b" by (rule toLowerByte_eq_iff)
qed

lemma colon_to_dash_space_safe:
  "\<forall>r \<in> set spaceRunes. \<forall>b \<in> set r.
     \<forall>c. (if c = CHR '':'' then CHR ''-'' else c) = b \<longleftrightarrow> c = b"
proof (intro ballI allI)
  fix r b c assume "r \<in> set spaceRunes" "b \<in> set r"
  with spaceRunes_bytes have "b \<noteq> CHR '':''" "b \<noteq> CHR ''-''"
    by blast+
  then show "(if c = CHR '':'' then CHR ''-'' else c) = b \<longleftrightarrow> c = b" by auto
qed

lemma TrimSpace_toLowerByte:
  "TrimSpace (map toLowerByte s) = map toLowerByte (TrimSpace s)"
  by (rule TrimSpace_map [OF toLowerByte_space_safe])

lemma TrimSpace_ReplaceAll:
  "TrimSpace (ReplaceAll s CHR '':'' CHR ''-'') = ReplaceAll (TrimSpace s) CHR '':'' CHR ''-''"
  unfolding ReplaceAll_def
  by (rule TrimSpace_map [OF colon_to_dash_space_safe])

lemma canonicalMac_ReplaceAll [simp]:
  "canonicalMac (ReplaceAll s CHR '':'' CHR ''-'') = canonicalMac s"
  by (simp add: canonicalMac_def ReplaceAll_def)

lemma canonicalMac_Nil_iff:
  "canonicalMac s = canonicalMac t \<Longrightarrow> s = [] \<longleftrightarrow> t = []"
  by (auto simp: canonicalMac_def ReplaceAll_def)

lemma canonicalMac_TrimSpace: "canonicalMac (TrimSpace s) = TrimSpace (canonicalMac s)"
  by (simp add: canonicalMac_def TrimSpace_toLowerByte TrimSpace_ReplaceAll)

lemma match_iff:
  "EqualFold (ReplaceAll h CHR '':'' CHR ''-'') (TrimSpace (ReplaceAll MacOverride CHR '':'' CHR ''-''))
     \<longleftrightarrow> canonicalMac h = canonicalMac (TrimSpace MacOverride)"
  by (simp add: EqualFold_iff TrimSpace_ReplaceAll canonicalMac_def)

lemma ifaceLoop_canonical:
  "canonicalMac MacOverride = canonicalMac MacOverride' \<Longrightarrow>
   fst (ifaceLoop ifaces MacOverride) = fst (ifaceLoop ifaces MacOverride')"
proof (induction ifaces arbitrary: MacOverride MacOverride')
  case Nil
  then show ?case by simp
next
  case (Cons iface ifaces)
  from Cons.prems have t: "canonicalMac (TrimSpace MacOverride) = canonicalMac (TrimSpace MacOverride')"
    by (simp add: canonicalMac_TrimSpace)
  from Cons.prems
  have "fst (ifaceLoop ifaces (ReplaceAll MacOverride CHR '':'' CHR ''-''))
      = fst (ifaceLoop ifaces (ReplaceAll MacOverride' CHR '':'' CHR ''-''))"
    by (intro Cons.IH) simp
  with t show ?case by (simp add: Let_def match_iff)
qed

lemma fst_selectIface:
  "fst (selectIface env MacOverride) =
     (if MacOverride \<noteq> []
      then map_option fst
             (fst (ifaceLoop (case Interfaces env of Inl err \<Rightarrow> [] | Inr ifs \<Rightarrow> ifs) MacOverride))
      else None)"
  by (auto simp: selectIface_def Let_def split: sum.splits prod.splits option.splits)

lemma fst_NewMDNS:
  "fst (NewMDNS env config MacOverride) =
     (case getMacAddr env of
        Inl err \<Rightarrow> None
      | Inr macAddress \<Rightarrow>
          (case Register env (HostName config) ''_http._tcp'' ''local.'' (Port config)
                  (txtRecords config macAddress) of
             Inl err \<Rightarrow> Some \<lparr> MDNS = None, Host = None, IfaceOverride = None \<rparr>
           | Inr server \<Rightarrow>
               Some \<lparr> MDNS = Some server, Host = Some config,
                      IfaceOverride = fst (selectIface env MacOverride) \<rparr>))"
  by (simp add: NewMDNS_def Let_def split: sum.splits prod.splits del: append.simps)

lemma ifaceLoop_find:
  "fst (ifaceLoop ifaces MacOverride) =
     map_option (\<lambda>iface. (iface, ifaceIpOf (Addrs iface)))
       (find (\<lambda>iface. canonicalMac (HardwareAddr_String (HardwareAddr iface))
                        = canonicalMac (TrimSpace MacOverride))
          ifaces)"
proof (induction ifaces arbitrary: MacOverride)
  case Nil
  then show ?case by simp
next
  case (Cons iface ifaces)
  have "canonicalMac (TrimSpace (ReplaceAll MacOverride CHR '':'' CHR ''-''))
      = canonicalMac (TrimSpace MacOverride)"
    by (simp add: canonicalMac_TrimSpace)
  with Cons.IH [of "ReplaceAll MacOverride CHR '':'' CHR ''-''"] show ?case
    by (simp add: Let_def match_iff)
qed

lemma selectIface_find:
  "fst (selectIface env MacOverride) =
     (if MacOverride = [] then None
      else find (\<lambda>iface. canonicalMac (HardwareAddr_String (HardwareAddr iface))
                          = canonicalMac (TrimSpace MacOverride))
             (case Interfaces env of Inl err \<Rightarrow> [] | Inr ifs \<Rightarrow> ifs))"
  by (simp add: fst_selectIface ifaceLoop_find option.map_comp comp_def option.map_ident)

text \<open>
  C9. The interface selected is the first one, in the order of \<^verbatim>\<open>net.Interfaces()\<close>,
  whose hardware address has the same canonical form as the trimmed override, and
  none when there is no such interface or the override is empty: the comparison of
  the loop is equality of canonical forms, so that letter case and the choice between
  colons and dashes do not matter. Hence two overrides with the same canonical form
  select the same interface and give the same agent.
\<close>

theorem selectIface_canonical:
  "fst (selectIface env MacOverride) =
     (if MacOverride = [] then None
      else find (\<lambda>iface. canonicalMac (HardwareAddr_String (HardwareAddr iface))
                          = canonicalMac (TrimSpace MacOverride))
             (case Interfaces env of Inl err \<Rightarrow> [] | Inr ifs \<Rightarrow> ifs))
   \<and> (EqualFold (ReplaceAll (HardwareAddr_String a) CHR '':'' CHR ''-'')
         (TrimSpace (ReplaceAll MacOverride CHR '':'' CHR ''-''))
       \<longleftrightarrow> canonicalMac (HardwareAddr_String a) = canonicalMac (TrimSpace MacOverride))
   \<and> (canonicalMac MacOverride = canonicalMac MacOverride' \<longrightarrow>
        fst (selectIface env MacOverride) = fst (selectIface env MacOverride')
        \<and> fst (NewMDNS env config MacOverride) = fst (NewMDNS env config MacOverride'))"
proof -
  have s: "fst (selectIface env MacOverride) = fst (selectIface env MacOverride')"
    if c: "canonicalMac MacOverride = canonicalMac MacOverride'"
    using ifaceLoop_canonical [OF c] canonicalMac_Nil_iff [OF c]
    by (simp add: fst_selectIface)
  have n: "fst (NewMDNS env config MacOverride) = fst (NewMDNS env config MacOverride')"
    if c: "canonicalMac MacOverride = canonicalMac MacOverride'"
    by (simp only: fst_NewMDNS s [OF c])
  from s n selectIface_find [of env MacOverride] show ?thesis
    by (simp add: match_iff)
qed

text \<open>
  On the concrete host: the address of \<open>eth0\<close> in upper case with colons and in mixed
  notation selects \<open>eth0\<close>, and an address that no interface has selects none.
\<close>

lemma canonicalMac_examples:
  "canonicalMac (HardwareAddr_String (HardwareAddr lo0)) = []"
  "canonicalMac (HardwareAddr_String (HardwareAddr eth0)) = ''aa-bb-cc-dd-ee-ff''"
  "canonicalMac ''AA:BB:CC:DD:EE:FF'' = ''aa-bb-cc-dd-ee-ff''"
  "canonicalMac ''aa-bb-CC-dd-ee:ff'' = ''aa-bb-cc-dd-ee-ff''"
  "canonicalMac ''00-11-22-33-44-55'' = ''00-11-22-33-44-55''"
  unfolding HardwareAddr_String_eth0 HardwareAddr_String_lo0 by code_simp+

lemma TrimSpace_examples:
  "TrimSpace ''aa-bb-cc-dd-ee-ff'' = ''aa-bb-cc-dd-ee-ff''"
  "TrimSpace ''00-11-22-33-44-55'' = ''00-11-22-33-44-55''"
  by (simp_all add: TrimSpace_def TrimLeftSpace.simps TrimRightSpace.simps leadingSpace_def
      trailingSpace_def spaceRunes_def)

theorem selectIface_canonical_witness:
  "canonicalMac ''AA:BB:CC:DD:EE:FF'' = canonicalMac ''aa-bb-CC-dd-ee:ff''
   \<and> fst (selectIface lan ''AA:BB:CC:DD:EE:FF'') = Some eth0
   \<and> fst (selectIface lan ''aa-bb-CC-dd-ee:ff'') = Some eth0
   \<and> fst (selectIface lan ''00-11-22-33-44-55'') = None
   \<and> fst (selectIface lan []) = None"
proof -
  have c: "canonicalMac ''AA:BB:CC:DD:EE:FF'' = canonicalMac ''aa-bb-CC-dd-ee:ff''"
    by (simp only: canonicalMac_examples)
  have i: "Interfaces lan = Inr [lo0, eth0]"
    by (simp add: lan_def)
  have t: "canonicalMac (TrimSpace ''AA:BB:CC:DD:EE:FF'') = ''aa-bb-cc-dd-ee-ff''"
    "canonicalMac (TrimSpace ''00-11-22-33-44-55'') = ''00-11-22-33-44-55''"
    by (simp_all add: canonicalMac_TrimSpace canonicalMac_examples TrimSpace_examples)
  have s: "fst (selectIface lan ''AA:BB:CC:DD:EE:FF'') = Some eth0"
    "fst (selectIface lan ''00-11-22-33-44-55'') = None"
    "fst (selectIface lan []) = None"
    using selectIface_canonical [of lan "''AA:BB:CC:DD:EE:FF''" "[]" "[]" thisHost]
      selectIface_canonical [of lan "''00-11-22-33-44-55''" "[]" "[]" thisHost]
      selectIface_canonical [of lan "[]" "[]" "[]" thisHost]
    by (simp_all add: i t canonicalMac_examples)
  have "fst (selectIface lan ''AA:BB:CC:DD:EE:FF'') = fst (selectIface lan ''aa-bb-CC-dd-ee:ff'')"
    using selectIface_canonical [of lan "''AA:BB:CC:DD:EE:FF''" "[]" "''aa-bb-CC-dd-ee:ff''"
        thisHost] c
    by blast
  with c s show ?thesis by simp
qed

end
